theory Spec2Isabelle
  imports Complex_Main "HOL-Library.List_Lexorder" "HOL-Library.Char_ord" "HOL-Library.Sublist"
begin

section \<open>Content-bounds detection (crop.py, find\_content\_bounds)\<close>

text \<open>
  The array \<^verbatim>\<open>np.array(im)\<close> of a PIL image is two-dimensional (one sample per
  pixel) or three-dimensional (a list of channel samples per pixel). Samples are
  natural numbers. The list-of-rows representation is rectangular for every numpy
  array; \<open>rectangular\<close> below says so for the lists.
\<close>

datatype ndarray = Arr2 "nat list list" | Arr3 "nat list list list"

text \<open>
  \<^verbatim>\<open>np.mean\<close> yields a float. The model computes the mean exactly, as a rational, and
  writes numpy's \<^verbatim>\<open>nan\<close> (the mean of an empty slice, or of a slice holding a
  \<^verbatim>\<open>nan\<close>) as \<open>None\<close>. Every comparison with \<^verbatim>\<open>nan\<close> is false.
\<close>

type_synonym sample = "rat option"

definition np_mean :: "sample list \<Rightarrow> sample" where
  "np_mean xs =
     (if xs = [] \<or> None \<in> set xs then None
      else Some (sum_list (map the xs) / of_nat (length xs)))"

definition lt_sample :: "sample \<Rightarrow> rat \<Rightarrow> bool" where
  "lt_sample m t = (case m of None \<Rightarrow> False | Some q \<Rightarrow> q < t)"

text \<open>
  \<^verbatim>\<open>if len(img_array.shape) == 3: img_array = np.mean(img_array, axis=2)\<close>
\<close>

fun to_gray :: "ndarray \<Rightarrow> sample list list" where
  "to_gray (Arr2 a) = map (map (\<lambda>v. Some (of_nat v))) a"
| "to_gray (Arr3 a) = map (map (\<lambda>px. np_mean (map (\<lambda>v. Some (of_nat v)) px))) a"

definition shape0 :: "'a list list \<Rightarrow> nat" where
  "shape0 g = length g"

definition shape1 :: "'a list list \<Rightarrow> nat" where
  "shape1 g = (case g of [] \<Rightarrow> 0 | r # _ \<Rightarrow> length r)"

definition rectangular :: "'a list list \<Rightarrow> bool" where
  "rectangular g = list_all (\<lambda>r. length r = shape1 g) g"

definition column :: "'a list list \<Rightarrow> nat \<Rightarrow> 'a list" where
  "column g j = map (\<lambda>r. r ! j) g"

definition threshold :: rat where
  "threshold = 250"

definition padding :: int where
  "padding = 10"

text \<open>
  \<^verbatim>\<open>rows = np.where(np.mean(img_array, axis=1) < threshold)[0]\<close> and
  \<^verbatim>\<open>cols = np.where(np.mean(img_array, axis=0) < threshold)[0]\<close>: the indices, in
  increasing order, of the rows and of the columns whose mean is below the threshold.
\<close>

definition row_is_content :: "sample list list \<Rightarrow> nat \<Rightarrow> bool" where
  "row_is_content g i = lt_sample (np_mean (g ! i)) threshold"

definition col_is_content :: "sample list list \<Rightarrow> nat \<Rightarrow> bool" where
  "col_is_content g j = lt_sample (np_mean (column g j)) threshold"

definition content_rows :: "sample list list \<Rightarrow> nat list" where
  "content_rows g = filter (row_is_content g) [0..<shape0 g]"

definition content_cols :: "sample list list \<Rightarrow> nat list" where
  "content_cols g = filter (col_is_content g) [0..<shape1 g]"

type_synonym rect = "int \<times> int \<times> int \<times> int"

text \<open>The result is \<^verbatim>\<open>(left, top, right, bottom)\<close>, or \<open>None\<close> for Python's \<^verbatim>\<open>None\<close>.\<close>

definition find_content_bounds :: "ndarray \<Rightarrow> rect option" where
  "find_content_bounds im =
     (let img_array = to_gray im;
          rows = content_rows img_array;
          cols = content_cols img_array
      in if length rows = 0 \<or> length cols = 0 then None
         else
           let top = int (hd rows);
               bottom = int (last rows);
               left = int (hd cols);
               right = int (last cols);
               top' = max (top - padding) 0;
               bottom' = min (bottom + padding) (int (shape0 img_array));
               left' = max (left - padding) 0;
               right' = min (right + padding) (int (shape1 img_array))
           in Some (left', top', right', bottom'))"

section \<open>Batch cropping (crop.py, process\_folder)\<close>

subsection \<open>Python strings, paths and lists\<close>

text \<open>
  \<^verbatim>\<open>str.lower\<close> on the ASCII letters; a file name is a list of bytes, and bytes
  outside \<open>A\<close>..\<open>Z\<close> are left as they are.
\<close>

definition lower_char :: "char \<Rightarrow> char" where
  "lower_char c =
     (if CHR ''A'' \<le> c \<and> c \<le> CHR ''Z'' then char_of (of_char c + (32::nat)) else c)"

definition lower :: "string \<Rightarrow> string" where
  "lower s = map lower_char s"

definition endswith :: "string \<Rightarrow> string \<Rightarrow> bool" where
  "endswith s suf = (length suf \<le> length s \<and> drop (length s - length suf) s = suf)"

text \<open>\<^verbatim>\<open>os.path.join(a, b)\<close> on POSIX.\<close>

definition path_join :: "string \<Rightarrow> string \<Rightarrow> string" where
  "path_join a b =
     (if b \<noteq> [] \<and> hd b = CHR ''/'' then b
      else if a = [] \<or> last a = CHR ''/'' then a @ b
      else a @ ''/'' @ b)"

datatype exn = Exception string | IndexError | EOFError

text \<open>
  \<^verbatim>\<open>xs[i]\<close>: a negative index counts from the end, an index out of range raises
  \<^verbatim>\<open>IndexError\<close>.
\<close>

definition py_index :: "'a list \<Rightarrow> int \<Rightarrow> exn + 'a" where
  "py_index xs i =
     (if 0 \<le> i
      then (if i < int (length xs) then Inr (xs ! nat i) else Inl IndexError)
      else (if - int (length xs) \<le> i then Inr (xs ! nat (int (length xs) + i))
            else Inl IndexError))"

text \<open>\<^verbatim>\<open>xs[:k]\<close>: a negative \<open>k\<close> drops the last \<open>-k\<close> elements.\<close>

definition py_slice_to :: "'a list \<Rightarrow> int \<Rightarrow> 'a list" where
  "py_slice_to xs k = (if 0 \<le> k then take (nat k) xs else take (nat (int (length xs) + k)) xs)"

text \<open>
  \<^verbatim>\<open>sorted([f for f in os.listdir(input_folder) if f.lower().endswith(".png")])\<close>,
  applied to the names that \<^verbatim>\<open>os.listdir\<close> returned. Python compares strings
  lexicographically, character by character.
\<close>

definition png_files_of :: "string list \<Rightarrow> string list" where
  "png_files_of names = sort (filter (\<lambda>f. endswith (lower f) ''.png'') names)"

subsection \<open>The outside world\<close>

text \<open>
  What the program prints, one constructor per \<^verbatim>\<open>print\<close> call of
  \<^verbatim>\<open>process_folder\<close>, with the values its format string interpolates.
\<close>

datatype msg =
    NoPngFiles
  | UsingManualBounds rect
  | CouldNotDetect
  | DetectedBounds rect
  | PressEnter
  | InputFile string
  | AbortedByUser
  | LimitingTo int
  | ProcessingFiles nat
  | ItemOk nat nat string
  | ItemError nat nat string exn
  | CombinedPdf

text \<open>
  The calls that reach outside the program, recorded in the order they are made. An
  image in memory is its pixel array. \<open>Save p im\<close> is
  \<^verbatim>\<open>im.save(p, "PNG", quality=100)\<close> and \<open>SavePdf p first rest\<close> is
  \<^verbatim>\<open>first.save(p, save_all=True, append_images=rest)\<close>. Closing an image is not
  recorded.
\<close>

datatype action =
    Mkdir string
  | Listdir string
  | Open string
  | Crop rect
  | Show ndarray
  | Print msg
  | Input
  | Save string ndarray
  | SavePdf string ndarray "ndarray list"

text \<open>
  The file system is a value of an arbitrary type \<open>'w\<close>; the operating system and the
  imaging library are the fields of an environment. Each operation either raises or
  succeeds; a failed save may still have changed the file system.
\<close>

record 'w env =
  mkdir :: "string \<Rightarrow> 'w \<Rightarrow> exn + 'w"
  listdir :: "string \<Rightarrow> 'w \<Rightarrow> exn + string list"
  image_open :: "string \<Rightarrow> 'w \<Rightarrow> exn + ndarray"
  crop :: "ndarray \<Rightarrow> rect \<Rightarrow> exn + ndarray"
  save :: "ndarray \<Rightarrow> string \<Rightarrow> 'w \<Rightarrow> exn option \<times> 'w"
  save_pdf :: "ndarray \<Rightarrow> ndarray list \<Rightarrow> string \<Rightarrow> 'w \<Rightarrow> exn option \<times> 'w"

record 'w state =
  world :: 'w
  trace :: "action list"
  stdin :: "string list"

definition emit :: "action \<Rightarrow> 'w state \<Rightarrow> 'w state" where
  "emit a st = st\<lparr>trace := trace st @ [a]\<rparr>"

definition print :: "msg \<Rightarrow> 'w state \<Rightarrow> 'w state" where
  "print m st = emit (Print m) st"

subsection \<open>Lines 60 to 89: output directory, listing, bounds, verification\<close>

text \<open>
  How a part of the function ends: an exception leaves the function, a
  \<^verbatim>\<open>return\<close> ends it early, or control goes on with a value.
\<close>

datatype 'a outcome = Raised exn | Returned | Continue 'a

text \<open>
  Lines 70 to 77. \<open>manual_bounds\<close> is a four-tuple or \<^verbatim>\<open>None\<close>; a four-tuple is
  always true in Python, and so is every result of \<open>find_content_bounds\<close> other than
  \<^verbatim>\<open>None\<close>.
\<close>

definition determine_bounds ::
  "rect option \<Rightarrow> ndarray \<Rightarrow> 'w state \<Rightarrow> rect outcome \<times> 'w state" where
  "determine_bounds manual_bounds first_image st =
     (case manual_bounds of
        Some bounds \<Rightarrow> (Continue bounds, print (UsingManualBounds bounds) st)
      | None \<Rightarrow>
          (case find_content_bounds first_image of
             None \<Rightarrow> (Returned, print CouldNotDetect st)
           | Some bounds \<Rightarrow> (Continue bounds, st)))"

text \<open>
  Lines 79 to 88. \<^verbatim>\<open>input()\<close> takes the next line of the standard input and raises
  \<^verbatim>\<open>EOFError\<close> when there is none.
\<close>

definition verify ::
  "'w env \<Rightarrow> int option \<Rightarrow> ndarray \<Rightarrow> string \<Rightarrow> rect \<Rightarrow> 'w state \<Rightarrow> unit outcome \<times> 'w state" where
  "verify env verify_idx first_image first_image_path bounds st =
     (if verify_idx \<noteq> None then
        (let st1 = emit (Crop bounds) st in
         case crop env first_image bounds of
           Inl e \<Rightarrow> (Raised e, st1)
         | Inr cropped_image \<Rightarrow>
             (let st2 = emit (Show cropped_image) st1;
                  st3 = print (DetectedBounds bounds) st2;
                  st4 = print PressEnter st3;
                  st5 = print (InputFile first_image_path) st4;
                  st6 = emit Input st5
              in case stdin st6 of
                   [] \<Rightarrow> (Raised EOFError, st6)
                 | user_input # rest \<Rightarrow>
                     (let st7 = st6\<lparr>stdin := rest\<rparr>
                      in if lower user_input = ''q''
                         then (Returned, print AbortedByUser st7)
                         else (Continue (), st7))))
      else (Continue (), st))"

definition prepare ::
  "'w env \<Rightarrow> string \<Rightarrow> string \<Rightarrow> rect option \<Rightarrow> int option \<Rightarrow> 'w state
     \<Rightarrow> (rect \<times> string list) outcome \<times> 'w state" where
  "prepare env input_folder output_folder manual_bounds verify_idx st =
     (let st1 = emit (Mkdir output_folder) st in
      case mkdir env output_folder (world st1) of
        Inl e \<Rightarrow> (Raised e, st1)
      | Inr w1 \<Rightarrow>
          (let st2 = emit (Listdir input_folder) (st1\<lparr>world := w1\<rparr>) in
           case listdir env input_folder (world st2) of
             Inl e \<Rightarrow> (Raised e, st2)
           | Inr names \<Rightarrow>
               (let png_files = png_files_of names in
                if png_files = [] then (Returned, print NoPngFiles st2)
                else
                  (case py_index png_files (case verify_idx of None \<Rightarrow> 0 | Some i \<Rightarrow> i) of
                     Inl e \<Rightarrow> (Raised e, st2)
                   | Inr name \<Rightarrow>
                       (let first_image_path = path_join input_folder name;
                            st3 = emit (Open first_image_path) st2
                        in case image_open env first_image_path (world st3) of
                             Inl e \<Rightarrow> (Raised e, st3)
                           | Inr first_image \<Rightarrow>
                               (case determine_bounds manual_bounds first_image st3 of
                                  (Raised e, st4) \<Rightarrow> (Raised e, st4)
                                | (Returned, st4) \<Rightarrow> (Returned, st4)
                                | (Continue bounds, st4) \<Rightarrow>
                                    (case verify env verify_idx first_image first_image_path
                                            bounds st4 of
                                       (Raised e, st5) \<Rightarrow> (Raised e, st5)
                                     | (Returned, st5) \<Rightarrow> (Returned, st5)
                                     | (Continue u, st5) \<Rightarrow>
                                         (Continue (bounds, png_files), st5))))))))"

subsection \<open>Lines 91 to 116: the limit and the loop\<close>

text \<open>\<^verbatim>\<open>if limit:\<close> is false for \<^verbatim>\<open>None\<close> and for \<open>0\<close>.\<close>

definition apply_limit ::
  "int option \<Rightarrow> string list \<Rightarrow> 'w state \<Rightarrow> string list \<times> 'w state" where
  "apply_limit limit png_files st =
     (case limit of
        None \<Rightarrow> (png_files, st)
      | Some k \<Rightarrow>
          if k \<noteq> 0 then (py_slice_to png_files k, print (LimitingTo k) st)
          else (png_files, st))"

text \<open>
  Lines 105 to 109, the part of the \<^verbatim>\<open>try\<close> block that can raise: open, crop,
  save. The result is the exception caught by \<^verbatim>\<open>except Exception\<close>, or the
  cropped image.
\<close>

definition try_item ::
  "'w env \<Rightarrow> string \<Rightarrow> string \<Rightarrow> rect \<Rightarrow> string \<Rightarrow> 'w state \<Rightarrow> (exn + ndarray) \<times> 'w state" where
  "try_item env input_folder output_folder bounds filename st =
     (let input_path = path_join input_folder filename;
          output_path = path_join output_folder (''cropped_'' @ filename);
          st1 = emit (Open input_path) st
      in case image_open env input_path (world st1) of
           Inl e \<Rightarrow> (Inl e, st1)
         | Inr im \<Rightarrow>
             (let st2 = emit (Crop bounds) st1 in
              case crop env im bounds of
                Inl e \<Rightarrow> (Inl e, st2)
              | Inr cropped \<Rightarrow>
                  (let st3 = emit (Save output_path cropped) st2 in
                   case save env cropped output_path (world st3) of
                     (Some e, w) \<Rightarrow> (Inl e, st3\<lparr>world := w\<rparr>)
                   | (None, w) \<Rightarrow> (Inr cropped, st3\<lparr>world := w\<rparr>))))"

text \<open>One iteration of the loop, for the \<open>i\<close>-th file name of \<open>total_files\<close>.\<close>

definition process_item ::
  "'w env \<Rightarrow> string \<Rightarrow> string \<Rightarrow> rect \<Rightarrow> bool \<Rightarrow> nat \<Rightarrow> nat \<Rightarrow> string
     \<Rightarrow> ndarray list \<times> 'w state \<Rightarrow> ndarray list \<times> 'w state" where
  "process_item env input_folder output_folder bounds output_pdf total_files i filename acc =
     (case acc of (images, st) \<Rightarrow>
        (case try_item env input_folder output_folder bounds filename st of
           (Inr cropped, st1) \<Rightarrow>
             (if output_pdf then images @ [cropped] else images,
              print (ItemOk i total_files filename) st1)
         | (Inl e, st1) \<Rightarrow>
             (images, print (ItemError i total_files filename e) st1)))"

text \<open>\<^verbatim>\<open>for i, filename in enumerate(png_files, 1)\<close>, from the index \<open>i\<close> on.\<close>

fun crop_loop ::
  "'w env \<Rightarrow> string \<Rightarrow> string \<Rightarrow> rect \<Rightarrow> bool \<Rightarrow> nat \<Rightarrow> nat \<Rightarrow> string list
     \<Rightarrow> ndarray list \<times> 'w state \<Rightarrow> ndarray list \<times> 'w state" where
  "crop_loop env input_folder output_folder bounds output_pdf total_files i [] acc = acc"
| "crop_loop env input_folder output_folder bounds output_pdf total_files i (filename # rest) acc =
     crop_loop env input_folder output_folder bounds output_pdf total_files (Suc i) rest
       (process_item env input_folder output_folder bounds output_pdf total_files i filename acc)"

subsection \<open>Lines 118 to 122: the combined document\<close>

text \<open>
  \<^verbatim>\<open>images.pop(0)\<close> raises \<^verbatim>\<open>IndexError\<close> on the empty list. The result is the
  exception that leaves the function, if any.
\<close>

definition assemble ::
  "'w env \<Rightarrow> string \<Rightarrow> ndarray list \<Rightarrow> 'w state \<Rightarrow> exn option \<times> 'w state" where
  "assemble env output_folder images st =
     (let pdf_filepath = path_join output_folder ''all-cropped.pdf'' in
      case images of
        [] \<Rightarrow> (Some IndexError, st)
      | pdf_file # images' \<Rightarrow>
          (let st1 = emit (SavePdf pdf_filepath pdf_file images') st in
           case save_pdf env pdf_file images' pdf_filepath (world st1) of
             (Some e, w) \<Rightarrow> (Some e, st1\<lparr>world := w\<rparr>)
           | (None, w) \<Rightarrow> (None, print CombinedPdf (st1\<lparr>world := w\<rparr>))))"

subsection \<open>The whole function\<close>

definition process_folder ::
  "'w env \<Rightarrow> string \<Rightarrow> string \<Rightarrow> rect option \<Rightarrow> int option \<Rightarrow> bool \<Rightarrow> int option
     \<Rightarrow> 'w state \<Rightarrow> exn option \<times> 'w state" where
  "process_folder env input_folder output_folder manual_bounds verify_idx output_pdf limit st =
     (case prepare env input_folder output_folder manual_bounds verify_idx st of
        (Raised e, st1) \<Rightarrow> (Some e, st1)
      | (Returned, st1) \<Rightarrow> (None, st1)
      | (Continue (bounds, png_files), st1) \<Rightarrow>
          (case apply_limit limit png_files st1 of
             (png_files', st2) \<Rightarrow>
               (let total_files = length png_files';
                    st3 = print (ProcessingFiles total_files) st2
                in case crop_loop env input_folder output_folder bounds output_pdf
                          total_files 1 png_files' ([], st3) of
                     (images, st4) \<Rightarrow>
                       if output_pdf then assemble env output_folder images st4
                       else (None, st4))))"

section \<open>Notions used to state the properties\<close>

subsection \<open>For the bounds detector\<close>

text \<open>Every luminance sample of the image equals \<open>v\<close>.\<close>

definition uniform :: "sample list list \<Rightarrow> rat \<Rightarrow> bool" where
  "uniform g v = list_all (list_all (\<lambda>x. x = Some v)) g"






subsection \<open>For the batch\<close>

text \<open>What was printed, which rectangles were cropped, which files were opened, and
  the pages handed to the PDF writer, read off a trace.\<close>

fun printed :: "action list \<Rightarrow> msg list" where
  "printed [] = []"
| "printed (Print m # tr) = m # printed tr"
| "printed (a # tr) = printed tr"

fun crop_rects :: "action list \<Rightarrow> rect list" where
  "crop_rects [] = []"
| "crop_rects (Crop r # tr) = r # crop_rects tr"
| "crop_rects (a # tr) = crop_rects tr"

fun opened :: "action list \<Rightarrow> string list" where
  "opened [] = []"
| "opened (Open p # tr) = p # opened tr"
| "opened (a # tr) = opened tr"

fun pdf_pages :: "action list \<Rightarrow> ndarray list" where
  "pdf_pages [] = []"
| "pdf_pages (SavePdf p first rest # tr) = first # rest @ pdf_pages tr"
| "pdf_pages (a # tr) = pdf_pages tr"

text \<open>
  The results of \<open>try_item\<close> for the files of the batch, in order, as they come out
  in the run of the loop that starts from \<open>acc\<close>.
\<close>

fun item_results ::
  "'w env \<Rightarrow> string \<Rightarrow> string \<Rightarrow> rect \<Rightarrow> bool \<Rightarrow> nat \<Rightarrow> nat \<Rightarrow> string list
     \<Rightarrow> ndarray list \<times> 'w state \<Rightarrow> (exn + ndarray) list" where
  "item_results env input_folder output_folder bounds output_pdf total_files i [] acc = []"
| "item_results env input_folder output_folder bounds output_pdf total_files i (filename # rest) acc =
     fst (try_item env input_folder output_folder bounds filename (snd acc)) #
     item_results env input_folder output_folder bounds output_pdf total_files (Suc i) rest
       (process_item env input_folder output_folder bounds output_pdf total_files i filename acc)"

text \<open>The line reported for the \<open>i\<close>-th file, and the lines for a batch.\<close>

definition report :: "nat \<Rightarrow> nat \<Rightarrow> string \<Rightarrow> exn + ndarray \<Rightarrow> msg" where
  "report total_files i filename r =
     (case r of Inr cropped \<Rightarrow> ItemOk i total_files filename
              | Inl e \<Rightarrow> ItemError i total_files filename e)"

fun reports :: "nat \<Rightarrow> nat \<Rightarrow> string list \<Rightarrow> (exn + ndarray) list \<Rightarrow> msg list" where
  "reports total_files i (filename # rest) (r # rs) =
     report total_files i filename r # reports total_files (Suc i) rest rs"
| "reports total_files i fs rs = []"

text \<open>The files that were cropped and saved, each with its cropped image, in batch
  order.\<close>

fun surviving :: "string list \<Rightarrow> (exn + ndarray) list \<Rightarrow> (string \<times> ndarray) list" where
  "surviving (filename # rest) (Inr cropped # rs) = (filename, cropped) # surviving rest rs"
| "surviving (filename # rest) (Inl e # rs) = surviving rest rs"
| "surviving fs rs = []"

text \<open>
  The batch that the loop runs over (\<open>png_files\<close> after lines 91 to 93), the state in
  which the loop starts (after line 96), what the loop leaves, and the results of its
  items, for a run whose first part ended in the state \<open>st\<close>.
\<close>

definition batch_of :: "int option \<Rightarrow> string list \<Rightarrow> string list" where
  "batch_of limit png_files =
     (case limit of
        None \<Rightarrow> png_files
      | Some k \<Rightarrow> if k \<noteq> 0 then py_slice_to png_files k else png_files)"

definition loop_start :: "int option \<Rightarrow> string list \<Rightarrow> 'w state \<Rightarrow> 'w state" where
  "loop_start limit png_files st =
     print (ProcessingFiles (length (batch_of limit png_files)))
       (snd (apply_limit limit png_files st))"

definition after_loop ::
  "'w env \<Rightarrow> string \<Rightarrow> string \<Rightarrow> rect \<Rightarrow> bool \<Rightarrow> int option \<Rightarrow> string list \<Rightarrow> 'w state
     \<Rightarrow> ndarray list \<times> 'w state" where
  "after_loop env input_folder output_folder bounds output_pdf limit png_files st =
     crop_loop env input_folder output_folder bounds output_pdf
       (length (batch_of limit png_files)) 1 (batch_of limit png_files)
       ([], loop_start limit png_files st)"

definition run_results ::
  "'w env \<Rightarrow> string \<Rightarrow> string \<Rightarrow> rect \<Rightarrow> bool \<Rightarrow> int option \<Rightarrow> string list \<Rightarrow> 'w state
     \<Rightarrow> (exn + ndarray) list" where
  "run_results env input_folder output_folder bounds output_pdf limit png_files st =
     item_results env input_folder output_folder bounds output_pdf
       (length (batch_of limit png_files)) 1 (batch_of limit png_files)
       ([], loop_start limit png_files st)"

text \<open>The report lines of a batch in which only the item at position \<open>k\<close> failed.\<close>

definition reports_one_failure :: "nat \<Rightarrow> string list \<Rightarrow> nat \<Rightarrow> exn \<Rightarrow> msg list" where
  "reports_one_failure total_files batch k e =
     map (\<lambda>j. if j = k then ItemError (Suc j) total_files (batch ! j) e
              else ItemOk (Suc j) total_files (batch ! j)) [0..<length batch]"

subsection \<open>A simulated file system and imaging library\<close>

text \<open>
  Directories with their entries, the image files that can be opened, the paths that
  cannot be written, and what has been written so far.
\<close>

record sim_world =
  listing :: "(string \<times> string list) list"
  readable :: "(string \<times> ndarray) list"
  unwritable :: "string list"
  written :: "(string \<times> ndarray) list"
  pdfs :: "(string \<times> ndarray list) list"

text \<open>
  The library's crop keeps the size of the requested box and fills what lies outside
  the image with zeros; it refuses a box whose right or lower edge comes before its
  left or upper edge.
\<close>

definition sim_crop :: "ndarray \<Rightarrow> rect \<Rightarrow> exn + ndarray" where
  "sim_crop im box =
     (case box of (l, t, r, b) \<Rightarrow>
        if r < l \<or> b < t then Inl (Exception ''Coordinate is less than its opposite'')
        else
          (case im of
             Arr2 a \<Rightarrow>
               Inr (Arr2 (map (\<lambda>y. map (\<lambda>x.
                      if 0 \<le> y \<and> y < int (length a) \<and> 0 \<le> x \<and> x < int (length (a ! nat y))
                      then a ! nat y ! nat x else 0) [l..r - 1]) [t..b - 1]))
           | Arr3 a \<Rightarrow>
               Inr (Arr3 (map (\<lambda>y. map (\<lambda>x.
                      if 0 \<le> y \<and> y < int (length a) \<and> 0 \<le> x \<and> x < int (length (a ! nat y))
                      then a ! nat y ! nat x else [0, 0, 0]) [l..r - 1]) [t..b - 1]))))"

definition sim_env :: "sim_world env" where
  "sim_env =
     \<lparr> mkdir = (\<lambda>d w.
         if d \<in> set (map fst (listing w)) then Inr w
         else Inr (w\<lparr>listing := listing w @ [(d, [])]\<rparr>)),
       listdir = (\<lambda>d w.
         case map_of (listing w) d of
           None \<Rightarrow> Inl (Exception ''No such file or directory'')
         | Some names \<Rightarrow> Inr names),
       image_open = (\<lambda>p w.
         case map_of (readable w) p of
           None \<Rightarrow> Inl (Exception ''cannot identify image file'')
         | Some im \<Rightarrow> Inr im),
       crop = sim_crop,
       save = (\<lambda>im p w.
         if p \<in> set (unwritable w) then (Some (Exception ''Permission denied''), w)
         else (None, w\<lparr>written := written w @ [(p, im)]\<rparr>)),
       save_pdf = (\<lambda>first rest p w. (None, w\<lparr>pdfs := pdfs w @ [(p, first # rest)]\<rparr>)) \<rparr>"

definition start :: "'w \<Rightarrow> string list \<Rightarrow> 'w state" where
  "start w lines = \<lparr> world = w, trace = [], stdin = lines \<rparr>"

text \<open>Three 2 by 2 pages in the folder \<open>in\<close>, listed out of order.\<close>

definition page :: ndarray where
  "page = Arr2 [[0, 255], [255, 255]]"

definition three_pages :: sim_world where
  "three_pages =
     \<lparr> listing = [(''in'', [''b.png'', ''a.png'', ''c.png'', ''notes.txt''])],
       readable = [(''in/a.png'', page), (''in/b.png'', page), (''in/c.png'', page)],
       unwritable = [], written = [], pdfs = [] \<rparr>"

text \<open>The same folder when \<open>b.png\<close> cannot be opened, when \<open>a.png\<close> cannot be
  opened, and a folder with one page whose output cannot be written.\<close>

definition bad_second_page :: sim_world where
  "bad_second_page =
     \<lparr> listing = [(''in'', [''b.png'', ''a.png'', ''c.png''])],
       readable = [(''in/a.png'', page), (''in/c.png'', page)],
       unwritable = [], written = [], pdfs = [] \<rparr>"

definition bad_first_page :: sim_world where
  "bad_first_page =
     \<lparr> listing = [(''in'', [''b.png'', ''a.png'', ''c.png''])],
       readable = [(''in/b.png'', page), (''in/c.png'', page)],
       unwritable = [], written = [], pdfs = [] \<rparr>"

definition read_only_output :: sim_world where
  "read_only_output =
     \<lparr> listing = [(''in'', [''a.png''])],
       readable = [(''in/a.png'', page)],
       unwritable = [''out/cropped_a.png''], written = [], pdfs = [] \<rparr>"

section \<open>Properties of the bounds detector\<close>

subsection \<open>Means and index lists\<close>

lemma np_mean_const:
  assumes a: "\<forall>x\<in>set xs. x = Some v"
  shows "np_mean xs = (if xs = [] then None else Some v)"
proof -
  from a have "map the xs = replicate (length xs) v"
    by (induction xs) auto
  then have "sum_list (map the xs) = of_nat (length xs) * v"
    by (simp add: sum_list_replicate)
  with a show ?thesis by (auto simp: np_mean_def)
qed





lemma sorted_hd_le_last: "sorted (xs::nat list) \<Longrightarrow> xs \<noteq> [] \<Longrightarrow> hd xs \<le> last xs"
  by (cases xs) auto

lemma filter_upt_bounds:
  assumes "filter P [0..<n] \<noteq> []"
  shows "hd (filter P [0..<n]) \<le> last (filter P [0..<n]) \<and> last (filter P [0..<n]) < n"
proof -
  let ?xs = "filter P [0..<n]"
  have s: "sorted ?xs" by (simp add: sorted_wrt_filter)
  have "last ?xs \<in> set ?xs" using assms by (rule last_in_set)
  then have "last ?xs < n" by simp
  moreover have "hd ?xs \<le> last ?xs"
    using s assms by (rule sorted_hd_le_last)
  ultimately show ?thesis by simp
qed


lemma uniform_rows_empty:
  assumes "uniform g v" and "threshold \<le> v"
  shows "content_rows g = []"
proof -
  have "\<not> row_is_content g i" if "i < shape0 g" for i
  proof -
    from that have "g ! i \<in> set g" by (simp add: shape0_def)
    with assms(1) have "\<forall>x\<in>set (g ! i). x = Some v"
      by (auto simp: uniform_def list_all_iff)
    then have "np_mean (g ! i) = (if g ! i = [] then None else Some v)"
      by (rule np_mean_const)
    with assms(2) show ?thesis
      by (simp add: row_is_content_def lt_sample_def)
  qed
  then show ?thesis by (simp add: content_rows_def filter_empty_conv)
qed

subsection \<open>Uniform images\<close>

text \<open>
  C1, as stated, fails. A uniform image darker than the threshold is all content: every
  row and every column has a mean below 250, so the detector returns the rectangle of
  the whole image. Here a 2 by 2 image of intensity 100 gives \<open>(0, 0, 2, 2)\<close>.
\<close>

theorem uniform_dark_image_gets_rectangle:
  "uniform (to_gray (Arr2 [[100, 100], [100, 100]])) 100 \<and>
   find_content_bounds (Arr2 [[100, 100], [100, 100]]) = Some (0, 0, 2, 2)"
  by code_simp

text \<open>
  C1, amended: for every uniform image whose intensity is at or above the brightness
  threshold, the bounds detector returns \<open>None\<close> ("no content found") and no
  rectangle.
\<close>

theorem uniform_bright_image_no_content:
  assumes "uniform (to_gray im) v" and "threshold \<le> v"
  shows "find_content_bounds im = None"
  using uniform_rows_empty [OF assms] by (simp add: find_content_bounds_def)

theorem uniform_bright_image_no_content_witness:
  "uniform (to_gray (Arr2 [[255, 255, 255], [255, 255, 255]])) 255 \<and> threshold \<le> 255 \<and>
   find_content_bounds (Arr2 [[255, 255, 255], [255, 255, 255]]) = None"
  using uniform_bright_image_no_content [of "Arr2 [[255, 255, 255], [255, 255, 255]]" 255]
  by (simp add: uniform_def threshold_def)

subsection \<open>The rectangle around known content\<close>



subsection \<open>The rectangle invariant\<close>

text \<open>
  C8: every rectangle the bounds detector returns satisfies
  \<open>0 \<le> left < right \<le> width\<close> and \<open>0 \<le> top < bottom \<le> height\<close> for the analysed
  image, whose width is \<open>shape1\<close> and whose height is \<open>shape0\<close>.
\<close>

theorem detected_rectangle_within_image:
  assumes "find_content_bounds im = Some (l, t, r, b)"
  shows "0 \<le> l \<and> l < r \<and> r \<le> int (shape1 (to_gray im)) \<and>
         0 \<le> t \<and> t < b \<and> b \<le> int (shape0 (to_gray im))"
proof -
  let ?g = "to_gray im"
  from assms have ne: "content_rows ?g \<noteq> []" "content_cols ?g \<noteq> []"
    by (auto simp: find_content_bounds_def Let_def split: if_splits)
  have rr: "hd (content_rows ?g) \<le> last (content_rows ?g) \<and> last (content_rows ?g) < shape0 ?g"
    using ne(1) unfolding content_rows_def by (rule filter_upt_bounds)
  have c: "hd (content_cols ?g) \<le> last (content_cols ?g) \<and> last (content_cols ?g) < shape1 ?g"
    using ne(2) unfolding content_cols_def by (rule filter_upt_bounds)
  from assms ne have
    "l = max (int (hd (content_cols ?g)) - padding) 0"
    "t = max (int (hd (content_rows ?g)) - padding) 0"
    "r = min (int (last (content_cols ?g)) + padding) (int (shape1 ?g))"
    "b = min (int (last (content_rows ?g)) + padding) (int (shape0 ?g))"
    by (simp_all add: find_content_bounds_def Let_def)
  with rr c show ?thesis by (simp add: padding_def)
qed

theorem detected_rectangle_within_image_witness:
  "find_content_bounds (Arr2 [[255, 255, 255], [255, 0, 255], [255, 255, 255]]) = Some (0, 0, 3, 3) \<and>
   (0::int) < 3 \<and>
   3 \<le> int (shape1 (to_gray (Arr2 [[255, 255, 255], [255, 0, 255], [255, 255, 255]]))) \<and>
   3 \<le> int (shape0 (to_gray (Arr2 [[255, 255, 255], [255, 0, 255], [255, 255, 255]])))"
proof -
  have h: "find_content_bounds (Arr2 [[255, 255, 255], [255, 0, 255], [255, 255, 255]]) = Some (0, 0, 3, 3)"
    by code_simp
  from detected_rectangle_within_image [OF h] h show ?thesis by simp
qed

section \<open>Properties of the batch run\<close>


subsection \<open>Traces\<close>

lemma emit_simps [simp]:
  "trace (emit a st) = trace st @ [a]" "world (emit a st) = world st" "stdin (emit a st) = stdin st"
  by (simp_all add: emit_def)

lemma print_simps [simp]:
  "trace (print m st) = trace st @ [Print m]" "world (print m st) = world st"
  "stdin (print m st) = stdin st"
  by (simp_all add: print_def)

lemma printed_append [simp]: "printed (xs @ ys) = printed xs @ printed ys"
  by (induction xs rule: printed.induct) simp_all

lemma crop_rects_append [simp]: "crop_rects (xs @ ys) = crop_rects xs @ crop_rects ys"
  by (induction xs rule: crop_rects.induct) simp_all

lemma opened_append [simp]: "opened (xs @ ys) = opened xs @ opened ys"
  by (induction xs rule: opened.induct) simp_all

lemma pdf_pages_append [simp]: "pdf_pages (xs @ ys) = pdf_pages xs @ pdf_pages ys"
  by (induction xs rule: pdf_pages.induct) simp_all

subsection \<open>One item\<close>

lemma try_item_printed [simp]:
  "printed (trace (snd (try_item env inp outp b f st))) = printed (trace st)"
  by (simp add: try_item_def Let_def split: sum.splits prod.splits option.splits)

lemma try_item_pdf_pages [simp]:
  "pdf_pages (trace (snd (try_item env inp outp b f st))) = pdf_pages (trace st)"
  by (simp add: try_item_def Let_def split: sum.splits prod.splits option.splits)

lemma try_item_opened [simp]:
  "opened (trace (snd (try_item env inp outp b f st))) = opened (trace st) @ [path_join inp f]"
  by (simp add: try_item_def Let_def split: sum.splits prod.splits option.splits)


lemma try_item_prefix: "prefix (trace st) (trace (snd (try_item env inp outp b f st)))"
  by (simp add: try_item_def Let_def split: sum.splits prod.splits option.splits)

lemma process_item_printed:
  "printed (trace (snd (process_item env inp outp b pdf n i f acc))) =
     printed (trace (snd acc)) @ [report n i f (fst (try_item env inp outp b f (snd acc)))]"
proof (cases acc)
  case (Pair images st)
  obtain r st1 where t: "try_item env inp outp b f st = (r, st1)" by (cases "try_item env inp outp b f st")
  have "printed (trace st1) = printed (trace st)"
    using try_item_printed [of env inp outp b f st] t by simp
  with Pair t show ?thesis by (simp add: process_item_def report_def split: sum.splits)
qed

lemma process_item_images:
  "fst (process_item env inp outp b pdf n i f acc) =
     fst acc @ (if pdf then map snd (surviving [f] [fst (try_item env inp outp b f (snd acc))]) else [])"
  by (cases acc; cases "try_item env inp outp b f (snd acc)")
     (simp add: process_item_def split: sum.splits)

lemma process_item_pdf_pages [simp]:
  "pdf_pages (trace (snd (process_item env inp outp b pdf n i f acc))) = pdf_pages (trace (snd acc))"
proof (cases acc)
  case (Pair images st)
  obtain r st1 where t: "try_item env inp outp b f st = (r, st1)" by (cases "try_item env inp outp b f st")
  have "pdf_pages (trace st1) = pdf_pages (trace st)" using try_item_pdf_pages [of env inp outp b f st] t by simp
  with Pair t show ?thesis by (simp add: process_item_def split: sum.splits)
qed

lemma process_item_opened [simp]:
  "opened (trace (snd (process_item env inp outp b pdf n i f acc))) =
     opened (trace (snd acc)) @ [path_join inp f]"
proof (cases acc)
  case (Pair images st)
  obtain r st1 where t: "try_item env inp outp b f st = (r, st1)" by (cases "try_item env inp outp b f st")
  have "opened (trace st1) = opened (trace st) @ [path_join inp f]"
    using try_item_opened [of env inp outp b f st] t by simp
  with Pair t show ?thesis by (simp add: process_item_def split: sum.splits)
qed


lemma process_item_prefix:
  "prefix (trace (snd acc)) (trace (snd (process_item env inp outp b pdf n i f acc)))"
proof (cases acc)
  case (Pair images st)
  obtain r st1 where t: "try_item env inp outp b f st = (r, st1)" by (cases "try_item env inp outp b f st")
  have "prefix (trace st) (trace st1)"
    using try_item_prefix [of st env inp outp b f] t by simp
  with Pair t show ?thesis by (auto simp: process_item_def prefix_def split: sum.splits)
qed

subsection \<open>The loop\<close>

lemma item_results_length [simp]:
  "length (item_results env inp outp b pdf n i fs acc) = length fs"
  by (induction fs arbitrary: i acc) simp_all

lemma crop_loop_printed:
  "printed (trace (snd (crop_loop env inp outp b pdf n i fs acc))) =
     printed (trace (snd acc)) @ reports n i fs (item_results env inp outp b pdf n i fs acc)"
  by (induction fs arbitrary: i acc) (simp_all add: process_item_printed)

lemma surviving_Cons:
  "surviving (f # fs) (r # rs) = surviving [f] [r] @ surviving fs rs"
  by (cases r) simp_all

lemma crop_loop_images:
  "fst (crop_loop env inp outp b pdf n i fs acc) =
     fst acc @ (if pdf then map snd (surviving fs (item_results env inp outp b pdf n i fs acc)) else [])"
proof (induction fs arbitrary: i acc)
  case Nil
  show ?case by simp
next
  case (Cons f fs)
  show ?case
    by (simp add: Cons.IH process_item_images
        surviving_Cons [of f fs "fst (try_item env inp outp b f (snd acc))"])
qed

lemma crop_loop_pdf_pages [simp]:
  "pdf_pages (trace (snd (crop_loop env inp outp b pdf n i fs acc))) = pdf_pages (trace (snd acc))"
  by (induction fs arbitrary: i acc) simp_all

lemma crop_loop_opened:
  "opened (trace (snd (crop_loop env inp outp b pdf n i fs acc))) =
     opened (trace (snd acc)) @ map (path_join inp) fs"
  by (induction fs arbitrary: i acc) simp_all


lemma crop_loop_prefix:
  "prefix (trace (snd acc)) (trace (snd (crop_loop env inp outp b pdf n i fs acc)))"
proof (induction fs arbitrary: i acc)
  case Nil
  show ?case by simp
next
  case (Cons f fs)
  show ?case
    using Cons.IH [of "process_item env inp outp b pdf n i f acc" "Suc i"]
      process_item_prefix [of acc env inp outp b pdf n i f]
    by (auto intro: prefix_order.trans)
qed


subsection \<open>Before the loop\<close>

lemma determine_bounds_facts:
  assumes "determine_bounds mb im st = (r, st')"
  shows "world st' = world st" and "prefix (trace st) (trace st')"
    and "crop_rects (trace st') = crop_rects (trace st)"
    and "opened (trace st') = opened (trace st)"
    and "pdf_pages (trace st') = pdf_pages (trace st)"
  using assms by (auto simp: determine_bounds_def split: option.splits)


lemma verify_facts:
  assumes "verify env v im p b st = (r, st')"
  shows "world st' = world st" and "prefix (trace st) (trace st')"
    and "set (crop_rects (trace st')) \<subseteq> insert b (set (crop_rects (trace st)))"
    and "opened (trace st') = opened (trace st)"
    and "pdf_pages (trace st') = pdf_pages (trace st)"
  using assms by (auto simp: verify_def Let_def split: sum.splits list.splits if_splits)


lemma prepare_world:
  assumes "mkdir env outp (world st) = Inr w1"
  shows "world (snd (prepare env inp outp mb v st)) = w1"
  using assms
  by (auto simp: prepare_def Let_def split: sum.splits outcome.splits prod.splits
      dest!: determine_bounds_facts(1) verify_facts(1))

lemma prepare_prefix:
  "prefix (trace st @ [Mkdir outp]) (trace (snd (prepare env inp outp mb v st)))"
  by (auto simp: prepare_def Let_def prefix_def split: sum.splits outcome.splits prod.splits
      dest!: determine_bounds_facts(2) verify_facts(2))



lemma prepare_Returned:
  assumes "prepare env inp outp mb v st = (Returned, st1)"
  shows "\<exists>tr. trace st1 = tr @ [Print NoPngFiles] \<or> trace st1 = tr @ [Print CouldNotDetect]
           \<or> trace st1 = tr @ [Print AbortedByUser]"
  using assms
  by (auto simp: prepare_def Let_def determine_bounds_def verify_def
      split: sum.splits outcome.splits prod.splits if_splits option.splits list.splits)


subsection \<open>The limit, the loop of a run, the combined document\<close>

lemma apply_limit_fst [simp]: "fst (apply_limit limit files st) = batch_of limit files"
  by (simp add: apply_limit_def batch_of_def split: option.splits)

lemma apply_limit_snd [simp]:
  "world (snd (apply_limit limit files st)) = world st"
  "crop_rects (trace (snd (apply_limit limit files st))) = crop_rects (trace st)"
  "opened (trace (snd (apply_limit limit files st))) = opened (trace st)"
  "pdf_pages (trace (snd (apply_limit limit files st))) = pdf_pages (trace st)"
  "prefix (trace st) (trace (snd (apply_limit limit files st)))"
  by (simp_all add: apply_limit_def split: option.splits)

lemma apply_limit_printed:
  "printed (trace (snd (apply_limit limit files st))) =
     printed (trace st) @
       (case limit of None \<Rightarrow> [] | Some k \<Rightarrow> if k \<noteq> 0 then [LimitingTo k] else [])"
  by (simp add: apply_limit_def split: option.splits)

lemma loop_start_simps [simp]:
  "world (loop_start limit files st) = world st"
  "crop_rects (trace (loop_start limit files st)) = crop_rects (trace st)"
  "opened (trace (loop_start limit files st)) = opened (trace st)"
  "pdf_pages (trace (loop_start limit files st)) = pdf_pages (trace st)"
  by (simp_all add: loop_start_def)

lemma loop_start_prefix: "prefix (trace st) (trace (loop_start limit files st))"
proof -
  have "prefix (trace st) (trace (snd (apply_limit limit files st)))" by simp
  then show ?thesis by (auto simp: loop_start_def prefix_def)
qed

lemma loop_start_printed:
  "printed (trace (loop_start limit files st)) =
     printed (trace st) @
       (case limit of None \<Rightarrow> [] | Some k \<Rightarrow> if k \<noteq> 0 then [LimitingTo k] else []) @
       [ProcessingFiles (length (batch_of limit files))]"
  by (simp add: loop_start_def apply_limit_printed)

lemma after_loop_printed:
  "printed (trace (snd (after_loop env inp outp b pdf limit files st))) =
     printed (trace (loop_start limit files st)) @
       reports (length (batch_of limit files)) 1 (batch_of limit files)
         (run_results env inp outp b pdf limit files st)"
  by (simp add: after_loop_def run_results_def crop_loop_printed)

lemma after_loop_images:
  "fst (after_loop env inp outp b pdf limit files st) =
     (if pdf then map snd (surviving (batch_of limit files)
                             (run_results env inp outp b pdf limit files st)) else [])"
  by (simp add: after_loop_def run_results_def crop_loop_images)

lemma after_loop_opened:
  "opened (trace (snd (after_loop env inp outp b pdf limit files st))) =
     opened (trace st) @ map (path_join inp) (batch_of limit files)"
  by (simp add: after_loop_def crop_loop_opened)

lemma after_loop_pdf_pages [simp]:
  "pdf_pages (trace (snd (after_loop env inp outp b pdf limit files st))) = pdf_pages (trace st)"
  by (simp add: after_loop_def)


lemma after_loop_prefix:
  "prefix (trace st) (trace (snd (after_loop env inp outp b pdf limit files st)))"
  using crop_loop_prefix [of "([], loop_start limit files st)" env inp outp b pdf
      "length (batch_of limit files)" 1 "batch_of limit files"]
    loop_start_prefix [of st limit files]
  by (auto simp: after_loop_def intro: prefix_order.trans)

lemma assemble_facts:
  "prefix (trace st) (trace (snd (assemble env outp images st)))"
  "crop_rects (trace (snd (assemble env outp images st))) = crop_rects (trace st)"
  "opened (trace (snd (assemble env outp images st))) = opened (trace st)"
  "pdf_pages (trace (snd (assemble env outp images st))) = pdf_pages (trace st) @ images"
  by (simp_all add: assemble_def Let_def split: list.splits prod.splits option.splits)

lemma assemble_printed:
  "\<exists>tail. printed (trace (snd (assemble env outp images st))) = printed (trace st) @ tail \<and>
          (tail = [] \<or> tail = [CombinedPdf])"
  by (simp add: assemble_def Let_def split: list.splits prod.splits option.splits)

lemma assemble_empty: "assemble env outp [] st = (Some IndexError, st)"
  by (simp add: assemble_def)

lemma process_folder_Continue:
  assumes "prepare env inp outp mb v st = (Continue (bounds, files), st1)"
  shows "process_folder env inp outp mb v pdf limit st =
           (if pdf
            then assemble env outp (fst (after_loop env inp outp bounds pdf limit files st1))
                   (snd (after_loop env inp outp bounds pdf limit files st1))
            else (None, snd (after_loop env inp outp bounds pdf limit files st1)))"
proof -
  obtain batch st2 where a: "apply_limit limit files st1 = (batch, st2)"
    by (cases "apply_limit limit files st1")
  have b: "batch = batch_of limit files" using apply_limit_fst [of limit files st1] a by simp
  have l: "loop_start limit files st1 = print (ProcessingFiles (length batch)) st2"
    using a b by (simp add: loop_start_def)
  show ?thesis
    using assms a
    by (simp add: process_folder_def Let_def after_loop_def l [symmetric] b [symmetric]
        split: prod.splits)
qed

lemma process_folder_Returned:
  assumes "prepare env inp outp mb v st = (Returned, st1)"
  shows "process_folder env inp outp mb v pdf limit st = (None, st1)"
  using assms by (simp add: process_folder_def)

lemma process_folder_Raised:
  assumes "prepare env inp outp mb v st = (Raised e, st1)"
  shows "process_folder env inp outp mb v pdf limit st = (Some e, st1)"
  using assms by (simp add: process_folder_def)

subsection \<open>The output directory\<close>

text \<open>
  C10: the first call that \<open>process_folder\<close> makes outside the program is the
  \<open>mkdir\<close> of the output folder, before the listing, the detection and the
  verification. When that call succeeds and the run then ends early (no PNG file, no
  bounds detected, or the operator aborts: the three \<^verbatim>\<open>return\<close>s of lines 63 to
  88, each right after its message), the function returns normally and the file system
  is the one that \<open>mkdir\<close> left, in which the directory exists.
\<close>

theorem output_directory_created_first:
  "prefix (trace st @ [Mkdir outp]) (trace (snd (process_folder env inp outp mb v pdf limit st))) \<and>
   (mkdir env outp (world st) = Inr w1 \<and> fst (prepare env inp outp mb v st) = Returned \<longrightarrow>
      fst (process_folder env inp outp mb v pdf limit st) = None \<and>
      world (snd (process_folder env inp outp mb v pdf limit st)) = w1 \<and>
      (\<exists>tr. trace (snd (process_folder env inp outp mb v pdf limit st)) = tr @ [Print NoPngFiles] \<or>
            trace (snd (process_folder env inp outp mb v pdf limit st)) = tr @ [Print CouldNotDetect] \<or>
            trace (snd (process_folder env inp outp mb v pdf limit st)) = tr @ [Print AbortedByUser]))"
proof -
  obtain r st1 where p: "prepare env inp outp mb v st = (r, st1)"
    by (cases "prepare env inp outp mb v st")
  have pre: "prefix (trace st @ [Mkdir outp]) (trace st1)"
    using prepare_prefix [of st outp env inp mb v] p by simp
  have first: "prefix (trace st @ [Mkdir outp]) (trace (snd (process_folder env inp outp mb v pdf limit st)))"
  proof (cases r)
    case (Raised e)
    with p pre show ?thesis by (simp add: process_folder_Raised)
  next
    case Returned
    with p pre show ?thesis by (simp add: process_folder_Returned)
  next
    case (Continue x)
    obtain bounds files where x: "x = (bounds, files)" by (cases x)
    let ?al = "after_loop env inp outp bounds pdf limit files st1"
    have 1: "prefix (trace st1) (trace (snd ?al))" by (rule after_loop_prefix)
    have 2: "prefix (trace (snd ?al)) (trace (snd (assemble env outp (fst ?al) (snd ?al))))"
      by (rule assemble_facts(1))
    from pre 1 have 3: "prefix (trace st @ [Mkdir outp]) (trace (snd ?al))"
      by (rule prefix_order.trans)
    from 3 2 have 4: "prefix (trace st @ [Mkdir outp]) (trace (snd (assemble env outp (fst ?al) (snd ?al))))"
      by (rule prefix_order.trans)
    from p Continue x have "prepare env inp outp mb v st = (Continue (bounds, files), st1)" by simp
    from process_folder_Continue [OF this, of pdf limit] 3 4 show ?thesis by (cases pdf) simp_all
  qed
  have early: "fst (process_folder env inp outp mb v pdf limit st) = None \<and>
      world (snd (process_folder env inp outp mb v pdf limit st)) = w1 \<and>
      (\<exists>tr. trace (snd (process_folder env inp outp mb v pdf limit st)) = tr @ [Print NoPngFiles] \<or>
            trace (snd (process_folder env inp outp mb v pdf limit st)) = tr @ [Print CouldNotDetect] \<or>
            trace (snd (process_folder env inp outp mb v pdf limit st)) = tr @ [Print AbortedByUser])"
    if m: "mkdir env outp (world st) = Inr w1" and r: "fst (prepare env inp outp mb v st) = Returned"
  proof -
    from p r have p': "prepare env inp outp mb v st = (Returned, st1)" by simp
    have w: "world st1 = w1" using prepare_world [OF m, of inp mb v] p by simp
    from process_folder_Returned [OF p', of pdf limit] w prepare_Returned [OF p']
    show ?thesis by simp
  qed
  from first early show ?thesis by blast
qed

theorem output_directory_created_first_witness:
  "mkdir sim_env ''out'' (world (start three_pages [''q''])) =
     Inr (three_pages\<lparr>listing := listing three_pages @ [(''out'', [])]\<rparr>) \<and>
   fst (prepare sim_env ''in'' ''out'' None (Some 0) (start three_pages [''q''])) = Returned \<and>
   prefix (trace (start three_pages [''q'']) @ [Mkdir ''out''])
     (trace (snd (process_folder sim_env ''in'' ''out'' None (Some 0) False None
                    (start three_pages [''q''])))) \<and>
   fst (process_folder sim_env ''in'' ''out'' None (Some 0) False None
          (start three_pages [''q''])) = None \<and>
   world (snd (process_folder sim_env ''in'' ''out'' None (Some 0) False None
                 (start three_pages [''q'']))) =
     three_pages\<lparr>listing := listing three_pages @ [(''out'', [])]\<rparr>"
proof -
  have m: "mkdir sim_env ''out'' (world (start three_pages [''q''])) =
     Inr (three_pages\<lparr>listing := listing three_pages @ [(''out'', [])]\<rparr>)"
    by (simp add: sim_env_def start_def three_pages_def)
  have r: "fst (prepare sim_env ''in'' ''out'' None (Some 0) (start three_pages [''q''])) = Returned"
    by code_simp
  from output_directory_created_first [of "start three_pages [''q'']" "''out''" sim_env "''in''"
      None "Some 0" False None "three_pages\<lparr>listing := listing three_pages @ [(''out'', [])]\<rparr>"]
    m r
  show ?thesis by blast
qed

subsection \<open>The limit\<close>



subsection \<open>The override rectangle\<close>




end
